theory Spec2Isabelle
  imports Complex_Main "HOL-Library.Word" "HOL-Library.Monad_Syntax"
begin

section \<open>Data model (types.ts)\<close>

text \<open>
  A JavaScript string is a sequence of UTF-16 code units and \<open>.length\<close> counts code
  units, so a string is a list of 16-bit words and its length is the list's length.
  Numbers that hold times and rates are modelled as reals (the arithmetic of the source
  is read as exact), counts and character indices as naturals.
\<close>

type_synonym jschar = "16 word"
type_synonym jsstring = "jschar list"

record Token =
  surface :: jsstring
  reading :: "jsstring option"

record HistoryItem =
  h_id :: jsstring
  h_text :: jsstring
  h_tokens :: "Token list option"
  h_createdAt :: nat
  h_lastPosition :: real
  h_repeatMode :: nat
  h_playbackRate :: "real option"

record Segment =
  segment :: jsstring
  seg_reading :: "jsstring option"
  index :: nat
  input :: jsstring
  isWordLike :: bool
  startCharIndex :: nat
  endCharIndex :: nat

section \<open>Player (components/Player.tsx)\<close>

text \<open>
  The \<open>audio\<close> element behind \<open>audioRef\<close>: the fields the handlers read and assign.
  \<open>audioRef.current\<close> may be null, so the state holds an optional element.
\<close>

record AudioElement =
  el_currentTime :: real
  el_duration :: real
  el_paused :: bool
  el_playbackRate :: real

text \<open>One call of the \<open>onUpdateProgress\<close> callback: id, progress, repeatMode, playbackRate.\<close>

type_synonym ProgressUpdate = "jsstring \<times> real \<times> nat \<times> real"

text \<open>
  The component's state variables, the element behind the ref, and the calls of
  \<open>onUpdateProgress\<close> made so far (oldest first).
\<close>

record PlayerState =
  isPlaying :: bool
  currentTime :: real
  duration :: real
  repeatMode :: nat
  playbackRate :: real
  currentRepeatCount :: nat
  showRepeatMenu :: bool
  showSpeedMenu :: bool
  audioRef :: "AudioElement option"
  progressUpdates :: "ProgressUpdate list"

definition el_play :: "AudioElement \<Rightarrow> AudioElement" where
  "el_play a = a\<lparr>el_paused := False\<rparr>"

definition el_pause :: "AudioElement \<Rightarrow> AudioElement" where
  "el_pause a = a\<lparr>el_paused := True\<rparr>"

text \<open>The element's \<open>onPlay\<close> and \<open>onPause\<close> handlers.\<close>

definition onPlay :: "PlayerState \<Rightarrow> PlayerState" where
  "onPlay st = st\<lparr>isPlaying := True\<rparr>"

definition onPause :: "PlayerState \<Rightarrow> PlayerState" where
  "onPause st = st\<lparr>isPlaying := False\<rparr>"

definition onUpdateProgress :: "ProgressUpdate \<Rightarrow> PlayerState \<Rightarrow> PlayerState" where
  "onUpdateProgress u st = st\<lparr>progressUpdates := progressUpdates st @ [u]\<rparr>"

definition handleEnded :: "PlayerState \<Rightarrow> PlayerState" where
  "handleEnded st =
     (if currentRepeatCount st < repeatMode st then
        st\<lparr>currentRepeatCount := currentRepeatCount st + 1,
           audioRef := map_option (\<lambda>a. el_play (a\<lparr>el_currentTime := 0\<rparr>)) (audioRef st)\<rparr>
      else
        st\<lparr>isPlaying := False,
           currentRepeatCount := 1,
           audioRef := map_option (\<lambda>a. a\<lparr>el_currentTime := 0\<rparr>) (audioRef st)\<rparr>)"

definition examplePlayer :: PlayerState where
  "examplePlayer =
     \<lparr>isPlaying = True, currentTime = 0, duration = 10, repeatMode = 5, playbackRate = 1,
      currentRepeatCount = 1, showRepeatMenu = False, showSpeedMenu = False,
      audioRef = Some \<lparr>el_currentTime = 10, el_duration = 10, el_paused = True,
                       el_playbackRate = 1\<rparr>,
      progressUpdates = []\<rparr>"

definition togglePlay :: "jsstring option \<Rightarrow> PlayerState \<Rightarrow> PlayerState" where
  "togglePlay audioUrl st =
     (if audioRef st = None \<or> audioUrl = None \<or> audioUrl = Some [] then st
      else if isPlaying st then
        st\<lparr>audioRef := map_option el_pause (audioRef st), isPlaying := \<not> isPlaying st\<rparr>
      else
        st\<lparr>audioRef := map_option el_play (audioRef st), isPlaying := \<not> isPlaying st\<rparr>)"

text \<open>
  \<open>handleTimeUpdate\<close>: \<open>Math.floor(time) % 2 === 0\<close> holds exactly when the floor is
  even, whatever the sign convention of the remainder.
\<close>

definition handleTimeUpdate :: "HistoryItem \<Rightarrow> PlayerState \<Rightarrow> PlayerState" where
  "handleTimeUpdate activeItem st =
     (case audioRef st of
        None \<Rightarrow> st
      | Some a \<Rightarrow>
          (let time = el_currentTime a;
               st' = st\<lparr>currentTime := time\<rparr>
           in if \<lfloor>time\<rfloor> mod 2 = 0
              then onUpdateProgress (h_id activeItem, time, repeatMode st, playbackRate st) st'
              else st'))"

text \<open>
  A time-advance tick: the element's clock has reached \<open>t\<close> and its \<open>timeupdate\<close>
  event runs \<open>handleTimeUpdate\<close>. \<open>timeUpdates\<close> runs the ticks of a playback in order.
\<close>

definition tick :: "HistoryItem \<Rightarrow> real \<Rightarrow> PlayerState \<Rightarrow> PlayerState" where
  "tick activeItem t st =
     handleTimeUpdate activeItem
       (st\<lparr>audioRef := map_option (\<lambda>a. a\<lparr>el_currentTime := t\<rparr>) (audioRef st)\<rparr>)"

fun timeUpdates :: "HistoryItem \<Rightarrow> real list \<Rightarrow> PlayerState \<Rightarrow> PlayerState" where
  "timeUpdates activeItem [] st = st"
| "timeUpdates activeItem (t # ts) st = timeUpdates activeItem ts (tick activeItem t st)"

definition handleLoadedMetadata :: "PlayerState \<Rightarrow> PlayerState" where
  "handleLoadedMetadata st =
     (case audioRef st of None \<Rightarrow> st | Some a \<Rightarrow> st\<lparr>duration := el_duration a\<rparr>)"

text \<open>
  \<open>handleWordClick\<close> and \<open>isSegmentActive\<close> read \<open>totalChars = activeItem.text.length\<close>.
  The quotient by \<open>totalChars\<close> is only meaningful for a non-empty text (in HOL a
  quotient by 0 is 0, in JavaScript it is NaN or Infinity).
\<close>

definition totalChars :: "HistoryItem \<Rightarrow> nat" where
  "totalChars activeItem = length (h_text activeItem)"

definition handleWordClick :: "HistoryItem \<Rightarrow> Segment \<Rightarrow> PlayerState \<Rightarrow> PlayerState" where
  "handleWordClick activeItem seg st =
     (if audioRef st = None \<or> duration st = 0 then st
      else
        (let estimatedStartTime =
               (real (startCharIndex seg) / real (totalChars activeItem)) * duration st;
             st1 = st\<lparr>audioRef :=
                        map_option (\<lambda>a. a\<lparr>el_currentTime := estimatedStartTime\<rparr>) (audioRef st),
                      currentTime := estimatedStartTime\<rparr>
         in if \<not> isPlaying st
            then st1\<lparr>audioRef := map_option el_play (audioRef st1), isPlaying := True\<rparr>
            else st1))"

definition isSegmentActive :: "HistoryItem \<Rightarrow> Segment \<Rightarrow> PlayerState \<Rightarrow> bool" where
  "isSegmentActive activeItem seg st =
     (if duration st = 0 then False
      else
        (let progress = currentTime st / duration st;
             charProgress = progress * real (totalChars activeItem)
         in charProgress \<ge> real (startCharIndex seg) \<and> charProgress < real (endCharIndex seg)))"

text \<open>The \<open>onClick\<close> of an entry \<open>count\<close> of the repeat menu, which lists 1, 5, 10 and 30.\<close>

definition repeatMenuCounts :: "nat list" where
  "repeatMenuCounts = [1, 5, 10, 30]"

definition repeatMenuClick :: "HistoryItem \<Rightarrow> nat \<Rightarrow> PlayerState \<Rightarrow> PlayerState" where
  "repeatMenuClick activeItem count st =
     onUpdateProgress (h_id activeItem, currentTime st, count, playbackRate st)
       (st\<lparr>repeatMode := count, showRepeatMenu := False\<rparr>)"

subsection \<open>Segments (the \<open>useMemo\<close> of Player)\<close>

text \<open>
  What one step of the iterator of \<open>Intl.Segmenter\<close> yields. The segmenter is a
  capability of the platform: \<open>None\<close> where \<open>Intl.Segmenter\<close> is undefined, otherwise
  the function from a text to its word-granularity segments.
\<close>

record SegmentData =
  sd_segment :: jsstring
  sd_index :: nat
  sd_input :: jsstring
  sd_isWordLike :: bool

type_synonym Segmenter = "jsstring \<Rightarrow> SegmentData list"

text \<open>The \<open>forEach\<close> over the tokens, with the running \<open>idx\<close> and \<open>charIndex\<close>.\<close>

fun tokenSegs :: "nat \<Rightarrow> nat \<Rightarrow> Token list \<Rightarrow> Segment list" where
  "tokenSegs idx charIndex [] = []"
| "tokenSegs idx charIndex (token # rest) =
     \<lparr>segment = surface token, seg_reading = reading token, index = idx,
      input = surface token, isWordLike = True, startCharIndex = charIndex,
      endCharIndex = charIndex + length (surface token)\<rparr>
     # tokenSegs (idx + 1) (charIndex + length (surface token)) rest"

text \<open>The \<open>for ... of\<close> over the segmenter's iterator, with the running \<open>charIndex\<close>.\<close>

fun segmenterSegs :: "nat \<Rightarrow> SegmentData list \<Rightarrow> Segment list" where
  "segmenterSegs charIndex [] = []"
| "segmenterSegs charIndex (seg # rest) =
     \<lparr>segment = sd_segment seg, seg_reading = None, index = sd_index seg,
      input = sd_input seg, isWordLike = sd_isWordLike seg, startCharIndex = charIndex,
      endCharIndex = charIndex + length (sd_segment seg)\<rparr>
     # segmenterSegs (charIndex + length (sd_segment seg)) rest"

definition segments :: "Segmenter option \<Rightarrow> HistoryItem \<Rightarrow> Segment list" where
  "segments Segmenter activeItem =
     (case h_tokens activeItem of
        Some (token # rest) \<Rightarrow> tokenSegs 0 0 (token # rest)
      | _ \<Rightarrow>
          if h_text activeItem = [] then []
          else (case Segmenter of
                  None \<Rightarrow>
                    [\<lparr>segment = h_text activeItem, seg_reading = None, index = 0,
                      input = h_text activeItem, isWordLike = True, startCharIndex = 0,
                      endCharIndex = length (h_text activeItem)\<rparr>]
                | Some segmenter \<Rightarrow> segmenterSegs 0 (segmenter (h_text activeItem))))"

text \<open>
  The tiling of the character range from \<open>s\<close> to \<open>e\<close> by a list of segments: each
  segment starts where the one before ended and covers as many characters as its text has.
\<close>

fun tiles :: "nat \<Rightarrow> Segment list \<Rightarrow> nat \<Rightarrow> bool" where
  "tiles s [] e = (s = e)"
| "tiles s (x # xs) e =
     (startCharIndex x = s \<and> endCharIndex x = s + length (segment x)
      \<and> tiles (endCharIndex x) xs e)"

text \<open>
  The highlight as the specification words it, with the character position rounded
  (\<open>Math.round\<close> is \<open>\<lfloor>x + 1/2\<rfloor>\<close>, which is \<open>round\<close>); to be compared with
  \<open>isSegmentActive\<close>.
\<close>

definition isSegmentActive_spec :: "HistoryItem \<Rightarrow> Segment \<Rightarrow> PlayerState \<Rightarrow> bool" where
  "isSegmentActive_spec activeItem seg st =
     (duration st \<noteq> 0
      \<and> int (startCharIndex seg)
            \<le> round ((currentTime st / duration st) * real (totalChars activeItem))
      \<and> round ((currentTime st / duration st) * real (totalChars activeItem))
            < int (endCharIndex seg))"

section \<open>Audio container encoder (\<open>pcmToWav\<close> in services/geminiService.ts)\<close>

text \<open>
  An \<open>ArrayBuffer\<close> is a list of bytes. The setters of \<open>DataView\<close> throw a RangeError
  when the write does not fit the buffer (\<open>None\<close>); they convert the value to the
  field's width modulo \<open>2 ^ 8\<close>, \<open>2 ^ 16\<close> or \<open>2 ^ 32\<close> (\<open>word_of_int\<close>) and store its
  bytes in the given byte order. Values are the integers among the numbers.
\<close>

type_synonym byte = "8 word"

definition setUint8 :: "byte list \<Rightarrow> nat \<Rightarrow> int \<Rightarrow> byte list option" where
  "setUint8 view byteOffset v =
     (if byteOffset + 1 \<le> length view then Some (view[byteOffset := word_of_int v]) else None)"

definition setUint16 :: "byte list \<Rightarrow> nat \<Rightarrow> int \<Rightarrow> bool \<Rightarrow> byte list option" where
  "setUint16 view byteOffset v littleEndian =
     (if byteOffset + 2 \<le> length view then
        (let w = (word_of_int v :: 16 word);
             b0 = (ucast w :: byte);
             b1 = (ucast (drop_bit 8 w) :: byte)
         in Some (if littleEndian
                  then view[byteOffset := b0, byteOffset + 1 := b1]
                  else view[byteOffset := b1, byteOffset + 1 := b0]))
      else None)"

definition setUint32 :: "byte list \<Rightarrow> nat \<Rightarrow> int \<Rightarrow> bool \<Rightarrow> byte list option" where
  "setUint32 view byteOffset v littleEndian =
     (if byteOffset + 4 \<le> length view then
        (let w = (word_of_int v :: 32 word);
             b0 = (ucast w :: byte);
             b1 = (ucast (drop_bit 8 w) :: byte);
             b2 = (ucast (drop_bit 16 w) :: byte);
             b3 = (ucast (drop_bit 24 w) :: byte)
         in Some (if littleEndian
                  then view[byteOffset := b0, byteOffset + 1 := b1,
                            byteOffset + 2 := b2, byteOffset + 3 := b3]
                  else view[byteOffset := b3, byteOffset + 1 := b2,
                            byteOffset + 2 := b1, byteOffset + 3 := b0]))
      else None)"

text \<open>\<open>writeString\<close>: one \<open>setUint8\<close> per code unit, at \<open>offset + i\<close>.\<close>

fun writeString :: "byte list \<Rightarrow> nat \<Rightarrow> jsstring \<Rightarrow> byte list option" where
  "writeString view offset [] = Some view"
| "writeString view offset (c # cs) =
     (case setUint8 view offset (uint c) of
        None \<Rightarrow> None
      | Some view' \<Rightarrow> writeString view' (offset + 1) cs)"

text \<open>
  \<open>new Uint8Array(buffer, byteOffset).set(source)\<close>: the source is copied to the bytes
  from \<open>byteOffset\<close> on; a source longer than the view is a RangeError.
\<close>

definition typedArraySet :: "byte list \<Rightarrow> nat \<Rightarrow> byte list \<Rightarrow> byte list option" where
  "typedArraySet buffer byteOffset source =
     (if byteOffset + length source \<le> length buffer
      then Some (take byteOffset buffer @ source @ drop (byteOffset + length source) buffer)
      else None)"

text \<open>The four chunk tags, as their code units: 'RIFF', 'WAVE', 'fmt ' and 'data'.\<close>

definition str_RIFF :: jsstring where "str_RIFF = [0x52, 0x49, 0x46, 0x46]"
definition str_WAVE :: jsstring where "str_WAVE = [0x57, 0x41, 0x56, 0x45]"
definition str_fmt :: jsstring where "str_fmt = [0x66, 0x6D, 0x74, 0x20]"
definition str_data :: jsstring where "str_data = [0x64, 0x61, 0x74, 0x61]"

text \<open>
  \<open>pcmToWav\<close>. For an integer sample rate the quotient \<open>sampleRate * 1 * 16 / 8\<close> is
  exact, so \<open>div\<close> is the source's division.
\<close>

definition pcmToWav :: "byte list \<Rightarrow> int \<Rightarrow> byte list option" where
  "pcmToWav pcmData sampleRate =
     (let numChannels = 1;
          bitsPerSample = 16;
          byteRate = (sampleRate * numChannels * bitsPerSample) div 8;
          blockAlign = (numChannels * bitsPerSample) div 8;
          dataSize = length pcmData;
          buffer = replicate (44 + dataSize) 0
      in do {
        view \<leftarrow> writeString buffer 0 str_RIFF;
        view \<leftarrow> setUint32 view 4 (36 + int dataSize) True;
        view \<leftarrow> writeString view 8 str_WAVE;
        view \<leftarrow> writeString view 12 str_fmt;
        view \<leftarrow> setUint32 view 16 16 True;
        view \<leftarrow> setUint16 view 20 1 True;
        view \<leftarrow> setUint16 view 22 numChannels True;
        view \<leftarrow> setUint32 view 24 sampleRate True;
        view \<leftarrow> setUint32 view 28 byteRate True;
        view \<leftarrow> setUint16 view 32 blockAlign True;
        view \<leftarrow> setUint16 view 34 bitsPerSample True;
        view \<leftarrow> writeString view 36 str_data;
        view \<leftarrow> setUint32 view 40 (int dataSize) True;
        typedArraySet view 44 pcmData
      })"

text \<open>
  Reading the container back, as a consumer does with \<open>DataView.getUint16\<close> and
  \<open>getUint32\<close>; \<open>getString\<close> reads \<open>n\<close> bytes as code units.
\<close>

definition getUint16 :: "byte list \<Rightarrow> nat \<Rightarrow> bool \<Rightarrow> nat option" where
  "getUint16 view byteOffset littleEndian =
     (if byteOffset + 2 \<le> length view then
        (let b0 = unat (view ! byteOffset); b1 = unat (view ! (byteOffset + 1))
         in Some (if littleEndian then b0 + 256 * b1 else b1 + 256 * b0))
      else None)"

definition getUint32 :: "byte list \<Rightarrow> nat \<Rightarrow> bool \<Rightarrow> nat option" where
  "getUint32 view byteOffset littleEndian =
     (if byteOffset + 4 \<le> length view then
        (let b0 = unat (view ! byteOffset); b1 = unat (view ! (byteOffset + 1));
             b2 = unat (view ! (byteOffset + 2)); b3 = unat (view ! (byteOffset + 3))
         in Some (if littleEndian
                  then b0 + 256 * b1 + 65536 * b2 + 16777216 * b3
                  else b3 + 256 * b2 + 65536 * b1 + 16777216 * b0))
      else None)"

definition getString :: "byte list \<Rightarrow> nat \<Rightarrow> nat \<Rightarrow> jsstring option" where
  "getString view byteOffset n =
     (if byteOffset + n \<le> length view
      then Some (map ucast (take n (drop byteOffset view))) else None)"

text \<open>
  For the proofs: the little-endian bytes of a field, the 44 bytes the encoder writes,
  and the first 44 bytes of a fresh buffer.
\<close>

definition le32 :: "int \<Rightarrow> byte list" where
  "le32 v = (let w = (word_of_int v :: 32 word)
             in [ucast w, ucast (drop_bit 8 w), ucast (drop_bit 16 w), ucast (drop_bit 24 w)])"

definition le16 :: "int \<Rightarrow> byte list" where
  "le16 v = (let w = (word_of_int v :: 16 word) in [ucast w, ucast (drop_bit 8 w)])"

definition wavHeader :: "nat \<Rightarrow> int \<Rightarrow> byte list" where
  "wavHeader dataSize sampleRate =
     [0x52, 0x49, 0x46, 0x46] @ le32 (36 + int dataSize) @ [0x57, 0x41, 0x56, 0x45]
     @ [0x66, 0x6D, 0x74, 0x20] @ le32 16 @ le16 1 @ le16 1 @ le32 sampleRate
     @ le32 (2 * sampleRate) @ le16 2 @ le16 16 @ [0x64, 0x61, 0x74, 0x61]
     @ le32 (int dataSize)"

definition zeros44 :: "byte list" where
  "zeros44 = [0,0,0,0, 0,0,0,0, 0,0,0,0, 0,0,0,0, 0,0,0,0, 0,0,0,0, 0,0,0,0, 0,0,0,0,
              0,0,0,0, 0,0,0,0, 0,0,0,0]"

section \<open>History store and generation (App.tsx, services/geminiService.ts)\<close>

text \<open>
  The outcome of a promise as \<open>Promise.allSettled\<close> reports it; a rejection carries
  \<open>reason?.message\<close>, which may be undefined. Messages are ASCII and kept as HOL
  strings.
\<close>

datatype 'a settled = fulfilled 'a | rejected "string option"

record AppState =
  history :: "HistoryItem list"
  activeItem :: "HistoryItem option"
  audioUrl :: "jsstring option"
  isLoading :: bool
  inputText :: jsstring
  isSidebarOpen :: bool
  error :: "string option"

text \<open>
  \<open>Array.prototype.findIndex\<close>: the first index whose element satisfies the predicate;
  \<open>None\<close> stands for the result \<open>-1\<close>.
\<close>

fun findIndex :: "('a \<Rightarrow> bool) \<Rightarrow> 'a list \<Rightarrow> nat option" where
  "findIndex p [] = None"
| "findIndex p (x # xs) = (if p x then Some 0 else map_option Suc (findIndex p xs))"

text \<open>
  \<open>String.prototype.trim\<close> strips the white space and line terminators of ECMAScript
  from both ends; \<open>!inputText.trim()\<close> holds when nothing is left.
\<close>

definition isWhiteSpace :: "jschar \<Rightarrow> bool" where
  "isWhiteSpace c =
     (c \<in> {0x0009, 0x000A, 0x000B, 0x000C, 0x000D, 0x0020, 0x00A0, 0x1680, 0x2000, 0x2001,
            0x2002, 0x2003, 0x2004, 0x2005, 0x2006, 0x2007, 0x2008, 0x2009, 0x200A, 0x2028,
            0x2029, 0x202F, 0x205F, 0x3000, 0xFEFF})"

definition trim :: "jsstring \<Rightarrow> jsstring" where
  "trim s = rev (dropWhile isWhiteSpace (rev (dropWhile isWhiteSpace s)))"

text \<open>
  The history update inside \<open>handleGenerate\<close> (the specification's \<open>createOrUpdate\<close>):
  it yields \<open>newItem\<close> and the list passed to \<open>setHistory\<close>. \<open>now\<close> is the value of
  \<open>Date.now()\<close> and \<open>uuid\<close> the value of \<open>uuidv4()\<close>.
\<close>

definition createOrUpdate ::
  "HistoryItem list \<Rightarrow> jsstring \<Rightarrow> Token list \<Rightarrow> nat \<Rightarrow> jsstring
     \<Rightarrow> HistoryItem \<times> HistoryItem list" where
  "createOrUpdate hist text tokens now uuid =
     (case findIndex (\<lambda>h. h_text h = text) hist of
        Some existingIndex \<Rightarrow>
          (let newItem = (hist ! existingIndex)
                 \<lparr>h_createdAt := now,
                  h_tokens := (if length tokens > 0 then Some tokens
                               else h_tokens (hist ! existingIndex))\<rparr>;
               newHist = take existingIndex hist @ drop (existingIndex + 1) hist
           in (newItem, newItem # newHist))
      | None \<Rightarrow>
          (let newItem = \<lparr>h_id = uuid, h_text = text, h_tokens = Some tokens,
                          h_createdAt = now, h_lastPosition = 0, h_repeatMode = 1,
                          h_playbackRate = Some 1\<rparr>
           in (newItem, newItem # hist)))"

text \<open>
  The two service calls, as functions of what their \<open>try\<close> block comes to: a thrown
  error (\<open>Inl\<close>, with its message) or a value. \<open>analyzeJapaneseText\<close> catches every
  error and returns the empty array; \<open>generateJapaneseSpeech\<close> rethrows.
\<close>

definition analyzeJapaneseText :: "string option + Token list \<Rightarrow> Token list settled" where
  "analyzeJapaneseText outcome =
     (case outcome of Inr tokens \<Rightarrow> fulfilled tokens | Inl err \<Rightarrow> fulfilled [])"

definition generateJapaneseSpeech :: "string option + jsstring \<Rightarrow> jsstring settled" where
  "generateJapaneseSpeech outcome =
     (case outcome of Inr url \<Rightarrow> fulfilled url | Inl err \<Rightarrow> rejected err)"

text \<open>
  \<open>handleGenerate\<close>, from the state at the click to the state after the \<open>finally\<close>
  block, given how the two promises settled.
\<close>

definition handleGenerate ::
  "jsstring settled \<Rightarrow> Token list settled \<Rightarrow> nat \<Rightarrow> jsstring \<Rightarrow> AppState \<Rightarrow> AppState" where
  "handleGenerate audioResult tokensResult now uuid st =
     (if trim (inputText st) = [] then st
      else
        (let st1 = st\<lparr>isLoading := True, error := None, audioUrl := None\<rparr>
         in case audioResult of
              rejected reason \<Rightarrow>
                (let thrown = (case reason of
                                 Some m \<Rightarrow> if m \<noteq> [] then m else ''Failed to generate speech''
                               | None \<Rightarrow> ''Failed to generate speech'');
                     shown = (if thrown \<noteq> [] then thrown
                              else ''Failed to generate speech. Please check your API key.'')
                 in st1\<lparr>error := Some shown, isLoading := False\<rparr>)
            | fulfilled url \<Rightarrow>
                (let tokens = (case tokensResult of fulfilled v \<Rightarrow> v | rejected r \<Rightarrow> []);
                     (newItem, newHist) =
                        createOrUpdate (history st) (inputText st) tokens now uuid
                 in st1\<lparr>history := newHist, activeItem := Some newItem,
                        audioUrl := Some url, isLoading := False\<rparr>)))"

definition handleBackToInput :: "AppState \<Rightarrow> AppState" where
  "handleBackToInput st = st\<lparr>activeItem := None, audioUrl := None\<rparr>"

definition handleDeleteHistory :: "jsstring \<Rightarrow> AppState \<Rightarrow> AppState" where
  "handleDeleteHistory ident st =
     (let st1 = st\<lparr>history := filter (\<lambda>item. h_id item \<noteq> ident) (history st)\<rparr>
      in if map_option h_id (activeItem st) = Some ident then handleBackToInput st1 else st1)"

definition handleUpdateProgress :: "ProgressUpdate \<Rightarrow> AppState \<Rightarrow> AppState" where
  "handleUpdateProgress u st =
     (case u of (ident, progress, repeatMode', playbackRate') \<Rightarrow>
        st\<lparr>history :=
             map (\<lambda>item. if h_id item = ident
                          then item\<lparr>h_lastPosition := progress, h_repeatMode := repeatMode',
                                    h_playbackRate := Some playbackRate'\<rparr>
                          else item)
                 (history st)\<rparr>)"

section \<open>Example values\<close>

text \<open>
  A five-character text with its two tokens (a three-character word with a reading and a
  two-character one without), and a text of a hundred characters without tokens.
\<close>

definition exampleTokens :: "Token list" where
  "exampleTokens =
     [\<lparr>surface = [0x65E5, 0x672C, 0x8A9E], reading = Some [0x306B, 0x307B, 0x3093, 0x3054]\<rparr>,
      \<lparr>surface = [0x3067, 0x3059], reading = None\<rparr>]"

definition exampleItem :: HistoryItem where
  "exampleItem =
     \<lparr>h_id = [0x61], h_text = [0x65E5, 0x672C, 0x8A9E, 0x3067, 0x3059],
      h_tokens = Some exampleTokens, h_createdAt = 1000, h_lastPosition = 3,
      h_repeatMode = 5, h_playbackRate = Some (3/2)\<rparr>"

definition hundredChars :: HistoryItem where
  "hundredChars =
     \<lparr>h_id = [0x62], h_text = replicate 100 0x3042, h_tokens = None, h_createdAt = 2000,
      h_lastPosition = 0, h_repeatMode = 1, h_playbackRate = Some 1\<rparr>"

definition segment_20_30 :: Segment where
  "segment_20_30 =
     \<lparr>segment = replicate 10 0x3042, seg_reading = None, index = 2,
      input = replicate 10 0x3042, isWordLike = True, startCharIndex = 20,
      endCharIndex = 30\<rparr>"

definition segment_2_3 :: Segment where
  "segment_2_3 =
     \<lparr>segment = [0x3042], seg_reading = None, index = 2, input = [0x3042],
      isWordLike = True, startCharIndex = 2, endCharIndex = 3\<rparr>"

text \<open>A segmenter that cuts a text after its third code unit.\<close>

definition exampleSegmenter :: Segmenter where
  "exampleSegmenter s =
     [\<lparr>sd_segment = take 3 s, sd_index = 0, sd_input = s, sd_isWordLike = True\<rparr>,
      \<lparr>sd_segment = drop 3 s, sd_index = 3, sd_input = s, sd_isWordLike = False\<rparr>]"

definition otherItem :: HistoryItem where
  "otherItem =
     \<lparr>h_id = [0x64], h_text = [0x3042, 0x3044], h_tokens = None, h_createdAt = 3000,
      h_lastPosition = 0, h_repeatMode = 1, h_playbackRate = Some 1\<rparr>"

definition exampleApp :: AppState where
  "exampleApp =
     \<lparr>history = [otherItem, exampleItem], activeItem = None, audioUrl = None,
      isLoading = False, inputText = [0x65E5, 0x672C, 0x8A9E, 0x3067, 0x3059],
      isSidebarOpen = False, error = None\<rparr>"

section \<open>Playback end and repetition\<close>

text \<open>
  C4. When playback ends on a mounted audio element, with configured repeat count
  \<open>n = repeatMode\<close> and current iteration \<open>i = currentRepeatCount\<close>: if \<open>i < n\<close> the
  iteration counter becomes \<open>i + 1\<close>, the element's position is set to 0 and the
  element is played again (its play event then sets the playing flag); otherwise the
  counter is reset to 1, the position is set to 0 and the playing flag is cleared. The
  configured repeat count stays as it is.
\<close>

theorem handleEnded_repeat:
  assumes "audioRef st = Some a"
  shows "(currentRepeatCount st < repeatMode st \<longrightarrow>
            currentRepeatCount (handleEnded st) = currentRepeatCount st + 1
            \<and> audioRef (handleEnded st) = Some (a\<lparr>el_currentTime := 0, el_paused := False\<rparr>)
            \<and> isPlaying (handleEnded st) = isPlaying st
            \<and> isPlaying (onPlay (handleEnded st)))
       \<and> (\<not> currentRepeatCount st < repeatMode st \<longrightarrow>
            currentRepeatCount (handleEnded st) = 1
            \<and> audioRef (handleEnded st) = Some (a\<lparr>el_currentTime := 0\<rparr>)
            \<and> \<not> isPlaying (handleEnded st))
       \<and> repeatMode (handleEnded st) = repeatMode st"
  using assms by (simp add: handleEnded_def el_play_def onPlay_def)

text \<open>
  With \<open>n = 5\<close>: at iterations 1 and 4 the counter goes to 2 and 5 and the element plays
  from 0; at iteration 5 the counter returns to 1 and the playing flag is cleared.
\<close>

theorem handleEnded_repeat_witness:
  "audioRef examplePlayer = Some \<lparr>el_currentTime = 10, el_duration = 10, el_paused = True,
                                  el_playbackRate = 1\<rparr>
   \<and> currentRepeatCount (handleEnded examplePlayer) = 2
   \<and> audioRef (handleEnded examplePlayer)
       = Some \<lparr>el_currentTime = 0, el_duration = 10, el_paused = False, el_playbackRate = 1\<rparr>
   \<and> currentRepeatCount (handleEnded (examplePlayer\<lparr>currentRepeatCount := 4\<rparr>)) = 5
   \<and> currentRepeatCount (handleEnded (examplePlayer\<lparr>currentRepeatCount := 5\<rparr>)) = 1
   \<and> \<not> isPlaying (handleEnded (examplePlayer\<lparr>currentRepeatCount := 5\<rparr>))
   \<and> audioRef (handleEnded (examplePlayer\<lparr>currentRepeatCount := 5\<rparr>))
       = Some \<lparr>el_currentTime = 0, el_duration = 10, el_paused = True, el_playbackRate = 1\<rparr>"
  using handleEnded_repeat [of examplePlayer
          "\<lparr>el_currentTime = 10, el_duration = 10, el_paused = True, el_playbackRate = 1\<rparr>"]
        handleEnded_repeat [of "examplePlayer\<lparr>currentRepeatCount := 4\<rparr>"
          "\<lparr>el_currentTime = 10, el_duration = 10, el_paused = True, el_playbackRate = 1\<rparr>"]
        handleEnded_repeat [of "examplePlayer\<lparr>currentRepeatCount := 5\<rparr>"
          "\<lparr>el_currentTime = 10, el_duration = 10, el_paused = True, el_playbackRate = 1\<rparr>"]
  by (simp add: examplePlayer_def)

section \<open>Selecting a segment\<close>

text \<open>
  C6. With an audio element mounted, a known duration \<open>d > 0\<close> and a text of
  \<open>totalChars > 0\<close> characters, clicking a segment that starts at character \<open>s\<close> sets
  both the element's position and the displayed time to \<open>(s / totalChars) * d\<close>; if the
  player was not playing, the element is played and the playing flag set, and if it was
  playing it goes on playing.
\<close>

theorem handleWordClick_seek:
  assumes "audioRef st = Some a" and "duration st > 0" and "totalChars item > 0"
  shows "currentTime (handleWordClick item seg st)
           = (real (startCharIndex seg) / real (totalChars item)) * duration st
       \<and> audioRef (handleWordClick item seg st)
           = Some (a\<lparr>el_currentTime :=
                        (real (startCharIndex seg) / real (totalChars item)) * duration st,
                      el_paused := (if isPlaying st then el_paused a else False)\<rparr>)
       \<and> isPlaying (handleWordClick item seg st)"
  using assms by (simp add: handleWordClick_def Let_def el_play_def)

text \<open>
  Duration 10 s, a text of 100 characters and the segment of characters 20 to 30: the
  click seeks to 2 s and starts the paused player.
\<close>

theorem handleWordClick_seek_witness:
  "audioRef (examplePlayer\<lparr>isPlaying := False\<rparr>)
     = Some \<lparr>el_currentTime = 10, el_duration = 10, el_paused = True, el_playbackRate = 1\<rparr>
   \<and> duration (examplePlayer\<lparr>isPlaying := False\<rparr>) = 10
   \<and> totalChars hundredChars = 100
   \<and> startCharIndex segment_20_30 = 20 \<and> endCharIndex segment_20_30 = 30
   \<and> currentTime (handleWordClick hundredChars segment_20_30
                     (examplePlayer\<lparr>isPlaying := False\<rparr>)) = 2
   \<and> audioRef (handleWordClick hundredChars segment_20_30 (examplePlayer\<lparr>isPlaying := False\<rparr>))
       = Some \<lparr>el_currentTime = 2, el_duration = 10, el_paused = False, el_playbackRate = 1\<rparr>
   \<and> isPlaying (handleWordClick hundredChars segment_20_30 (examplePlayer\<lparr>isPlaying := False\<rparr>))"
  using handleWordClick_seek [of "examplePlayer\<lparr>isPlaying := False\<rparr>"
          "\<lparr>el_currentTime = 10, el_duration = 10, el_paused = True, el_playbackRate = 1\<rparr>"
          hundredChars segment_20_30]
  by (simp add: examplePlayer_def hundredChars_def segment_20_30_def totalChars_def)

section \<open>The highlighted segment\<close>

lemma tick_state:
  "audioRef st = Some a \<Longrightarrow>
     currentTime (tick item t st) = t \<and> duration (tick item t st) = duration st"
  by (simp add: tick_def handleTimeUpdate_def Let_def onUpdateProgress_def)

text \<open>
  C7, as the code has it. After a time-advance tick at playback time \<open>t\<close> with duration
  \<open>d > 0\<close>, a segment is highlighted exactly when its character range contains the
  position \<open>(t / d) * totalChars\<close> itself, which is not rounded. With \<open>d = 0\<close> no
  segment is highlighted and a click on a segment changes nothing.
\<close>

theorem isSegmentActive_unrounded:
  assumes "audioRef st = Some a"
  shows "(duration st > 0 \<longrightarrow>
            isSegmentActive item seg (tick item t st)
              = (real (startCharIndex seg) \<le> (t / duration st) * real (totalChars item)
                 \<and> (t / duration st) * real (totalChars item) < real (endCharIndex seg)))
       \<and> (duration st = 0 \<longrightarrow>
            \<not> isSegmentActive item seg (tick item t st)
            \<and> handleWordClick item seg st = st)"
  using tick_state [OF assms, of item t]
  by (simp add: isSegmentActive_def handleWordClick_def Let_def)

text \<open>
  At \<open>t = 0.27\<close> of 10 s over 100 characters the position is 2.7: the segment of
  characters 2 to 3 is highlighted. With the duration still 0 it is not, and a click on
  it leaves the player as it is.
\<close>

theorem isSegmentActive_unrounded_witness:
  "audioRef examplePlayer
     = Some \<lparr>el_currentTime = 10, el_duration = 10, el_paused = True, el_playbackRate = 1\<rparr>
   \<and> duration examplePlayer = 10
   \<and> isSegmentActive hundredChars segment_2_3 (tick hundredChars (27/100) examplePlayer)
   \<and> \<not> isSegmentActive hundredChars segment_20_30 (tick hundredChars (27/100) examplePlayer)
   \<and> \<not> isSegmentActive hundredChars segment_2_3
          (tick hundredChars (27/100) (examplePlayer\<lparr>duration := 0\<rparr>))
   \<and> handleWordClick hundredChars segment_2_3 (examplePlayer\<lparr>duration := 0\<rparr>)
       = examplePlayer\<lparr>duration := 0\<rparr>"
  using isSegmentActive_unrounded [of examplePlayer
          "\<lparr>el_currentTime = 10, el_duration = 10, el_paused = True, el_playbackRate = 1\<rparr>"
          hundredChars segment_2_3 "27/100"]
        isSegmentActive_unrounded [of examplePlayer
          "\<lparr>el_currentTime = 10, el_duration = 10, el_paused = True, el_playbackRate = 1\<rparr>"
          hundredChars segment_20_30 "27/100"]
        isSegmentActive_unrounded [of "examplePlayer\<lparr>duration := 0\<rparr>"
          "\<lparr>el_currentTime = 10, el_duration = 10, el_paused = True, el_playbackRate = 1\<rparr>"
          hundredChars segment_2_3 "27/100"]
  by (simp add: examplePlayer_def hundredChars_def segment_2_3_def segment_20_30_def
      totalChars_def)

text \<open>
  The claim as stated fails there: the rounded position is 3, outside the characters 2
  to 3, while the code highlights that segment.
\<close>

lemma round_27_tenths: "round (27 / 10 :: real) = 3"
  by (simp add: round_def)

theorem isSegmentActive_round_counterexample:
  "isSegmentActive hundredChars segment_2_3 (tick hundredChars (27/100) examplePlayer)
   \<and> \<not> isSegmentActive_spec hundredChars segment_2_3 (tick hundredChars (27/100) examplePlayer)"
  using round_27_tenths
  by (simp add: isSegmentActive_def isSegmentActive_spec_def tick_def handleTimeUpdate_def
      onUpdateProgress_def Let_def examplePlayer_def hundredChars_def segment_2_3_def
      totalChars_def)

section \<open>Persisting progress\<close>

text \<open>A tick reports progress exactly when the whole second of its time is even.\<close>

lemma tick_persists:
  "audioRef st = Some a \<Longrightarrow>
     progressUpdates (tick item t st)
       = (if \<lfloor>t\<rfloor> mod 2 = 0
          then progressUpdates st @ [(h_id item, t, repeatMode st, playbackRate st)]
          else progressUpdates st)"
  by (simp add: tick_def handleTimeUpdate_def Let_def onUpdateProgress_def)

text \<open>
  C8, at the failing input. Three time-advance ticks a quarter of a second apart, all
  within the first second of media time, each report progress to the history store: the
  check \<open>Math.floor(time) % 2 === 0\<close> holds for every tick of an even second.
\<close>

theorem handleTimeUpdate_no_throttle:
  "progressUpdates (timeUpdates exampleItem [1/4, 1/2, 3/4] examplePlayer)
     = [([0x61], 1/4, 5, 1), ([0x61], 1/2, 5, 1), ([0x61], 3/4, 5, 1)]"
  by (simp add: tick_def handleTimeUpdate_def onUpdateProgress_def Let_def
      examplePlayer_def exampleItem_def)

section \<open>Choosing a repeat count\<close>

text \<open>
  C9, as the code has it. Choosing an entry \<open>n\<close> of the repeat menu (1, 5, 10 or 30)
  sets the configured repeat count to \<open>n\<close>, closes the menu and reports the new count to
  the history store; the iteration counter of the playback in progress keeps its value.
\<close>

theorem repeatMenuClick_sets_count:
  assumes "n \<in> set repeatMenuCounts"
  shows "repeatMode (repeatMenuClick item n st) = n
       \<and> currentRepeatCount (repeatMenuClick item n st) = currentRepeatCount st
       \<and> \<not> showRepeatMenu (repeatMenuClick item n st)
       \<and> progressUpdates (repeatMenuClick item n st)
           = progressUpdates st @ [(h_id item, currentTime st, n, playbackRate st)]"
  by (simp add: repeatMenuClick_def onUpdateProgress_def)

theorem repeatMenuClick_sets_count_witness:
  "10 \<in> set repeatMenuCounts
   \<and> repeatMode (repeatMenuClick exampleItem 10 (examplePlayer\<lparr>currentRepeatCount := 3\<rparr>)) = 10
   \<and> currentRepeatCount
        (repeatMenuClick exampleItem 10 (examplePlayer\<lparr>currentRepeatCount := 3\<rparr>)) = 3"
  using repeatMenuClick_sets_count [of 10 exampleItem "examplePlayer\<lparr>currentRepeatCount := 3\<rparr>"]
  by (simp add: repeatMenuCounts_def examplePlayer_def)

text \<open>The claim as stated fails: in the third iteration, choosing 10 leaves the counter at 3.\<close>

theorem repeatMenuClick_counter_counterexample:
  "currentRepeatCount
     (repeatMenuClick exampleItem 10 (examplePlayer\<lparr>currentRepeatCount := 3\<rparr>)) \<noteq> 1"
  by (simp add: repeatMenuClick_def onUpdateProgress_def examplePlayer_def)

section \<open>Segments tile the text\<close>

lemma tiles_tokenSegs:
  "tiles c (tokenSegs i c ts) (c + length (concat (map surface ts)))"
  by (induction ts arbitrary: i c) (simp_all add: add.assoc [symmetric])

lemma concat_tokenSegs: "concat (map segment (tokenSegs i c ts)) = concat (map surface ts)"
  by (induction ts arbitrary: i c) simp_all

lemma tiles_segmenterSegs:
  "tiles c (segmenterSegs c ds) (c + length (concat (map sd_segment ds)))"
  by (induction ds arbitrary: c) (simp_all add: add.assoc [symmetric])

lemma concat_segmenterSegs:
  "concat (map segment (segmenterSegs c ds)) = concat (map sd_segment ds)"
  by (induction ds arbitrary: c) simp_all

lemma tiles_hd: "tiles s xs e \<Longrightarrow> xs \<noteq> [] \<Longrightarrow> startCharIndex (hd xs) = s"
  by (cases xs) simp_all

lemma tiles_last: "tiles s xs e \<Longrightarrow> xs \<noteq> [] \<Longrightarrow> endCharIndex (last xs) = e"
  by (induction xs arbitrary: s) (auto split: if_splits)

lemma tiles_adjacent:
  "tiles s xs e \<Longrightarrow> Suc i < length xs \<Longrightarrow> endCharIndex (xs ! i) = startCharIndex (xs ! Suc i)"
proof (induction xs arbitrary: s i)
  case Nil
  then show ?case by simp
next
  case (Cons x xs)
  show ?case
  proof (cases i)
    case 0
    with Cons.prems show ?thesis by (cases xs) simp_all
  next
    case (Suc j)
    with Cons show ?thesis by auto
  qed
qed

lemma tiles_ordered: "tiles s xs e \<Longrightarrow> x \<in> set xs \<Longrightarrow> startCharIndex x \<le> endCharIndex x"
  by (induction xs arbitrary: s) auto

lemma tiles_segments:
  assumes "\<And>t ts. h_tokens item = Some (t # ts) \<Longrightarrow> concat (map surface (t # ts)) = h_text item"
      and "\<And>sg. S = Some sg \<Longrightarrow> concat (map sd_segment (sg (h_text item))) = h_text item"
  shows "tiles 0 (segments S item) (length (h_text item))
       \<and> concat (map segment (segments S item)) = h_text item"
proof (cases "\<exists>t ts. h_tokens item = Some (t # ts)")
  case True
  then obtain t ts where ts: "h_tokens item = Some (t # ts)" by blast
  then have c: "concat (map surface (t # ts)) = h_text item" using assms(1) by blast
  have s: "segments S item = tokenSegs 0 0 (t # ts)" using ts by (simp add: segments_def)
  have "tiles 0 (tokenSegs 0 0 (t # ts)) (0 + length (concat (map surface (t # ts))))"
    by (rule tiles_tokenSegs)
  then have 1: "tiles 0 (segments S item) (length (h_text item))"
    unfolding c s by simp
  have 2: "concat (map segment (segments S item)) = h_text item"
    unfolding s concat_tokenSegs by (rule c)
  from 1 2 show ?thesis by simp
next
  case False
  then have seg: "segments S item =
      (if h_text item = [] then []
       else (case S of
               None \<Rightarrow>
                 [\<lparr>segment = h_text item, seg_reading = None, index = 0,
                   input = h_text item, isWordLike = True, startCharIndex = 0,
                   endCharIndex = length (h_text item)\<rparr>]
             | Some segmenter \<Rightarrow> segmenterSegs 0 (segmenter (h_text item))))"
    by (auto simp: segments_def split: option.splits list.splits)
  show ?thesis
  proof (cases S)
    case None
    show ?thesis by (simp only: seg) (simp add: None)
  next
    case (Some sg)
    then have c: "concat (map sd_segment (sg (h_text item))) = h_text item"
      using assms(2) by blast
    have "tiles 0 (segmenterSegs 0 (sg (h_text item)))
            (0 + length (concat (map sd_segment (sg (h_text item)))))"
      by (rule tiles_segmenterSegs)
    then have 1: "tiles 0 (segmenterSegs 0 (sg (h_text item))) (length (h_text item))"
      unfolding c by simp
    have 2: "concat (map segment (segmenterSegs 0 (sg (h_text item)))) = h_text item"
      unfolding concat_segmenterSegs by (rule c)
    show ?thesis
    proof (cases "h_text item = []")
      case True
      then show ?thesis by (simp only: seg) simp
    next
      case False
      then show ?thesis using 1 2 by (simp only: seg) (simp add: Some)
    qed
  qed
qed

text \<open>
  C1. Let the tokens of the item, when there are any, have surfaces that concatenate to
  its text (the analyzer's contract), and let the platform's segmenter, when there is
  one, return segments that concatenate to the text it is given (the contract of
  \<open>Intl.Segmenter\<close>). Then on each path (tokens, segmenter, single segment) the segment
  list is contiguous and ordered: the first segment starts at 0, each segment ends where
  the next one starts, no segment ends before it starts, the last one ends at the total
  character count, and the segments' texts concatenate to the text.
\<close>

theorem segments_contiguous:
  assumes "case h_tokens item of
             Some ts \<Rightarrow> ts = [] \<or> concat (map surface ts) = h_text item
           | None \<Rightarrow> True"
      and "case S of
             Some segmenter \<Rightarrow> concat (map sd_segment (segmenter (h_text item))) = h_text item
           | None \<Rightarrow> True"
  shows "(segments S item \<noteq> [] \<longrightarrow>
            startCharIndex (hd (segments S item)) = 0
            \<and> endCharIndex (last (segments S item)) = totalChars item)
       \<and> (\<forall>i. Suc i < length (segments S item) \<longrightarrow>
            endCharIndex (segments S item ! i) = startCharIndex (segments S item ! Suc i))
       \<and> (\<forall>x \<in> set (segments S item). startCharIndex x \<le> endCharIndex x)
       \<and> concat (map segment (segments S item)) = h_text item"
proof -
  have a: "\<And>t ts. h_tokens item = Some (t # ts) \<Longrightarrow> concat (map surface (t # ts)) = h_text item"
    using assms(1) by auto
  have b: "\<And>sg. S = Some sg \<Longrightarrow> concat (map sd_segment (sg (h_text item))) = h_text item"
    using assms(2) by auto
  have "tiles 0 (segments S item) (length (h_text item))
        \<and> concat (map segment (segments S item)) = h_text item"
    by (rule tiles_segments) (erule a, erule b)
  then have t: "tiles 0 (segments S item) (length (h_text item))"
    and c: "concat (map segment (segments S item)) = h_text item" by simp_all
  show ?thesis
    using tiles_hd [OF t] tiles_last [OF t] tiles_adjacent [OF t] tiles_ordered [OF t] c
    by (simp add: totalChars_def)
qed

text \<open>The three paths on the five-character example.\<close>

theorem segments_contiguous_witness:
  "h_tokens exampleItem = Some exampleTokens
   \<and> concat (map surface exampleTokens) = h_text exampleItem
   \<and> map (\<lambda>x. (startCharIndex x, endCharIndex x)) (segments None exampleItem) = [(0, 3), (3, 5)]
   \<and> concat (map segment (segments None exampleItem)) = h_text exampleItem
   \<and> concat (map sd_segment (exampleSegmenter (h_text exampleItem))) = h_text exampleItem
   \<and> map (\<lambda>x. (startCharIndex x, endCharIndex x))
        (segments (Some exampleSegmenter) (exampleItem\<lparr>h_tokens := None\<rparr>)) = [(0, 3), (3, 5)]
   \<and> map (\<lambda>x. (startCharIndex x, endCharIndex x))
        (segments None (exampleItem\<lparr>h_tokens := Some []\<rparr>)) = [(0, 5)]
   \<and> totalChars exampleItem = 5"
  using segments_contiguous [of exampleItem None]
        segments_contiguous [of "exampleItem\<lparr>h_tokens := None\<rparr>" "Some exampleSegmenter"]
        segments_contiguous [of "exampleItem\<lparr>h_tokens := Some []\<rparr>" None]
  by (simp add: exampleItem_def exampleTokens_def exampleSegmenter_def segments_def
      totalChars_def)

section \<open>The history store\<close>

lemma findIndex_None: "findIndex p xs = None \<longleftrightarrow> (\<forall>x\<in>set xs. \<not> p x)"
  by (induction xs) auto

lemma findIndex_Some:
  "findIndex p xs = Some i \<Longrightarrow> i < length xs \<and> p (xs ! i) \<and> (\<forall>j<i. \<not> p (xs ! j))"
proof (induction xs arbitrary: i)
  case Nil
  then show ?case by simp
next
  case (Cons x xs)
  show ?case
  proof (cases "p x")
    case True
    with Cons.prems show ?thesis by simp
  next
    case False
    with Cons.prems obtain k where k: "findIndex p xs = Some k" "i = Suc k" by auto
    from Cons.IH [OF k(1)] False k(2) show ?thesis
      by (auto simp: less_Suc_eq_0_disj)
  qed
qed

lemma find_findIndex: "find p xs = Some x \<Longrightarrow> \<exists>i. findIndex p xs = Some i \<and> xs ! i = x"
  by (induction xs) (auto split: if_splits)

lemma remove_nth_filter:
  assumes "distinct (map f xs)" "i < length xs"
  shows "take i xs @ drop (Suc i) xs = filter (\<lambda>x. f x \<noteq> f (xs ! i)) xs"
  using assms
proof (induction xs arbitrary: i)
  case Nil
  then show ?case by simp
next
  case (Cons x xs)
  show ?case
  proof (cases i)
    case 0
    have "\<forall>y\<in>set xs. f y \<noteq> f x" using Cons.prems(1) by (force simp: image_iff)
    then have "filter (\<lambda>y. f y \<noteq> f x) xs = xs" by (simp add: filter_id_conv)
    with 0 show ?thesis by simp
  next
    case (Suc j)
    then have j: "j < length xs" using Cons.prems(2) by simp
    then have "xs ! j \<in> set xs" by simp
    then have "f x \<noteq> f (xs ! j)" using Cons.prems(1) by (force simp: image_iff)
    with Suc Cons.IH [of j] Cons.prems(1) j show ?thesis by simp
  qed
qed

lemma createOrUpdate_existing:
  assumes "find (\<lambda>h. h_text h = txt) hist = Some old"
  shows "\<exists>i. i < length hist \<and> hist ! i = old \<and> h_text old = txt
           \<and> createOrUpdate hist txt tokens now uuid =
               (old\<lparr>h_createdAt := now,
                    h_tokens := (if tokens \<noteq> [] then Some tokens else h_tokens old)\<rparr>,
                old\<lparr>h_createdAt := now,
                    h_tokens := (if tokens \<noteq> [] then Some tokens else h_tokens old)\<rparr>
                  # take i hist @ drop (Suc i) hist)"
proof -
  from find_findIndex [OF assms] obtain i
    where i: "findIndex (\<lambda>h. h_text h = txt) hist = Some i" "hist ! i = old" by blast
  from findIndex_Some [OF i(1)] have "i < length hist" "h_text (hist ! i) = txt"
    by simp_all
  then show ?thesis using i
    by (intro exI [of _ i]) (simp add: createOrUpdate_def Let_def)
qed

lemma createOrUpdate_new:
  assumes "find (\<lambda>h. h_text h = txt) hist = None"
  shows "createOrUpdate hist txt tokens now uuid =
           (\<lparr>h_id = uuid, h_text = txt, h_tokens = Some tokens, h_createdAt = now,
             h_lastPosition = 0, h_repeatMode = 1, h_playbackRate = Some 1\<rparr>,
            \<lparr>h_id = uuid, h_text = txt, h_tokens = Some tokens, h_createdAt = now,
             h_lastPosition = 0, h_repeatMode = 1, h_playbackRate = Some 1\<rparr> # hist)"
proof -
  have "findIndex (\<lambda>h. h_text h = txt) hist = None"
    using assms by (simp add: findIndex_None find_None_iff)
  then show ?thesis by (simp add: createOrUpdate_def Let_def)
qed

text \<open>
  The store holds at most one item per text: this is so of the empty history, and the
  three operations on the history keep it so.
\<close>

lemma createOrUpdate_distinct:
  assumes "distinct (map h_text hist)"
  shows "distinct (map h_text (snd (createOrUpdate hist txt tokens now uuid)))"
proof (cases "find (\<lambda>h. h_text h = txt) hist")
  case None
  then have "txt \<notin> h_text ` set hist" by (auto simp: find_None_iff)
  then show ?thesis using createOrUpdate_new [OF None, of tokens now uuid] assms by simp
next
  case (Some old)
  from createOrUpdate_existing [OF Some, of tokens now uuid] obtain i where
    i: "i < length hist" "hist ! i = old" "h_text old = txt" and
    c: "snd (createOrUpdate hist txt tokens now uuid) =
          old\<lparr>h_createdAt := now,
              h_tokens := (if tokens \<noteq> [] then Some tokens else h_tokens old)\<rparr>
            # take i hist @ drop (Suc i) hist" by force
  have r: "take i hist @ drop (Suc i) hist = filter (\<lambda>h. h_text h \<noteq> txt) hist"
    using remove_nth_filter [OF assms i(1)] i(2,3) by simp
  have "distinct (map h_text (filter (\<lambda>h. h_text h \<noteq> txt) hist))"
    using assms by (simp add: distinct_map_filter)
  moreover have "txt \<notin> h_text ` set (filter (\<lambda>h. h_text h \<noteq> txt) hist)"
    by auto
  ultimately show ?thesis unfolding c r using i(3) by simp
qed

lemma handleUpdateProgress_texts:
  "map h_text (history (handleUpdateProgress u st)) = map h_text (history st)"
  by (cases u) (simp add: handleUpdateProgress_def comp_def)

lemma handleDeleteHistory_distinct:
  "distinct (map h_text (history st)) \<Longrightarrow>
     distinct (map h_text (history (handleDeleteHistory ident st)))"
  by (simp add: handleDeleteHistory_def handleBackToInput_def Let_def distinct_map_filter)

text \<open>
  C3. On a history with at most one item per text: if an item with the submitted text
  exists, then afterwards exactly one item has that text; it is at the front, its
  \<open>createdAt\<close> is the time of this call, its tokens are the new tokens when these are
  non-empty and the item's earlier tokens otherwise, and the other items follow in their
  earlier order. If no item has the text, a new item with the generated id,
  \<open>lastPosition = 0\<close>, \<open>repeatMode = 1\<close> and \<open>playbackRate = 1.0\<close> is put before the
  unchanged history.
\<close>

theorem createOrUpdate_spec:
  assumes "distinct (map h_text hist)"
  shows "(case find (\<lambda>h. h_text h = txt) hist of
            Some old \<Rightarrow>
              (let (newItem, newHist) = createOrUpdate hist txt tokens now uuid
               in length (filter (\<lambda>h. h_text h = txt) newHist) = 1
                  \<and> hd newHist = newItem
                  \<and> tl newHist = filter (\<lambda>h. h_text h \<noteq> txt) hist
                  \<and> h_text newItem = txt
                  \<and> h_createdAt newItem = now
                  \<and> h_tokens newItem = (if tokens \<noteq> [] then Some tokens else h_tokens old))
          | None \<Rightarrow>
              createOrUpdate hist txt tokens now uuid =
                (\<lparr>h_id = uuid, h_text = txt, h_tokens = Some tokens, h_createdAt = now,
                  h_lastPosition = 0, h_repeatMode = 1, h_playbackRate = Some 1\<rparr>,
                 \<lparr>h_id = uuid, h_text = txt, h_tokens = Some tokens, h_createdAt = now,
                  h_lastPosition = 0, h_repeatMode = 1, h_playbackRate = Some 1\<rparr> # hist))"
proof (cases "find (\<lambda>h. h_text h = txt) hist")
  case None
  then show ?thesis using createOrUpdate_new [OF None] by simp
next
  case (Some old)
  from createOrUpdate_existing [OF Some, of tokens now uuid] obtain i where
    i: "i < length hist" "hist ! i = old" "h_text old = txt" and
    c: "createOrUpdate hist txt tokens now uuid =
          (old\<lparr>h_createdAt := now,
               h_tokens := (if tokens \<noteq> [] then Some tokens else h_tokens old)\<rparr>,
           old\<lparr>h_createdAt := now,
               h_tokens := (if tokens \<noteq> [] then Some tokens else h_tokens old)\<rparr>
             # take i hist @ drop (Suc i) hist)" by blast
  have r: "take i hist @ drop (Suc i) hist = filter (\<lambda>h. h_text h \<noteq> txt) hist"
    using remove_nth_filter [OF assms i(1)] i(2,3) by simp
  have "filter (\<lambda>h. h_text h = txt) (filter (\<lambda>h. h_text h \<noteq> txt) hist) = []"
    by (simp add: filter_empty_conv)
  then show ?thesis using Some c r i(3) by simp
qed

text \<open>
  Submitting the text of the second item of the example history, first with an empty
  analysis and then a new text.
\<close>

theorem createOrUpdate_spec_witness:
  "distinct (map h_text (history exampleApp))
   \<and> find (\<lambda>h. h_text h = h_text exampleItem) (history exampleApp) = Some exampleItem
   \<and> createOrUpdate (history exampleApp) (h_text exampleItem) [] 5000 [0x63]
       = (exampleItem\<lparr>h_createdAt := 5000\<rparr>, [exampleItem\<lparr>h_createdAt := 5000\<rparr>, otherItem])
   \<and> find (\<lambda>h. h_text h = [0x3042]) (history exampleApp) = None
   \<and> hd (snd (createOrUpdate (history exampleApp) [0x3042] exampleTokens 5000 [0x63]))
       = \<lparr>h_id = [0x63], h_text = [0x3042], h_tokens = Some exampleTokens, h_createdAt = 5000,
          h_lastPosition = 0, h_repeatMode = 1, h_playbackRate = Some 1\<rparr>"
  using createOrUpdate_spec [of "history exampleApp" "h_text exampleItem" "[]" 5000 "[0x63]"]
        createOrUpdate_spec [of "history exampleApp" "[0x3042]" exampleTokens 5000 "[0x63]"]
  by (simp add: exampleApp_def exampleItem_def otherItem_def createOrUpdate_def Let_def)

text \<open>
  C10. When an item with the submitted text exists, the item that \<open>createOrUpdate\<close>
  puts at the front of the history is the first such item with only \<open>createdAt\<close> and
  \<open>tokens\<close> replaced: its id, text, \<open>lastPosition\<close>, \<open>repeatMode\<close> and \<open>playbackRate\<close> are
  those it had.
\<close>

theorem createOrUpdate_frame:
  assumes "find (\<lambda>h. h_text h = txt) hist = Some old"
  shows "h_id (fst (createOrUpdate hist txt tokens now uuid)) = h_id old
       \<and> h_text (fst (createOrUpdate hist txt tokens now uuid)) = h_text old
       \<and> h_lastPosition (fst (createOrUpdate hist txt tokens now uuid)) = h_lastPosition old
       \<and> h_repeatMode (fst (createOrUpdate hist txt tokens now uuid)) = h_repeatMode old
       \<and> h_playbackRate (fst (createOrUpdate hist txt tokens now uuid)) = h_playbackRate old
       \<and> fst (createOrUpdate hist txt tokens now uuid) =
           old\<lparr>h_createdAt := h_createdAt (fst (createOrUpdate hist txt tokens now uuid)),
               h_tokens := h_tokens (fst (createOrUpdate hist txt tokens now uuid))\<rparr>
       \<and> hd (snd (createOrUpdate hist txt tokens now uuid))
           = fst (createOrUpdate hist txt tokens now uuid)"
  using createOrUpdate_existing [OF assms, of tokens now uuid] by auto

theorem createOrUpdate_frame_witness:
  "find (\<lambda>h. h_text h = h_text exampleItem) (history exampleApp) = Some exampleItem
   \<and> h_id (fst (createOrUpdate (history exampleApp) (h_text exampleItem) [] 5000 [0x63])) = [0x61]
   \<and> h_lastPosition (fst (createOrUpdate (history exampleApp) (h_text exampleItem) [] 5000 [0x63])) = 3
   \<and> h_repeatMode (fst (createOrUpdate (history exampleApp) (h_text exampleItem) [] 5000 [0x63])) = 5
   \<and> h_playbackRate (fst (createOrUpdate (history exampleApp) (h_text exampleItem) [] 5000 [0x63]))
       = Some (3/2)"
  using createOrUpdate_frame [of "h_text exampleItem" "history exampleApp" exampleItem "[]" 5000 "[0x63]"]
  by (simp add: exampleApp_def exampleItem_def otherItem_def)

section \<open>Failures of generation\<close>

text \<open>
  C5. For a generation request on a non-blank input: when the analysis fails (its
  \<open>try\<close> block throws, or its promise is rejected) and the synthesis succeeds, the
  generation completes as with an empty token sequence, with no error shown; when the
  synthesis fails, an error message is shown and the history, the active item and the
  (cleared) audio are those of a request that did nothing else.
\<close>

theorem handleGenerate_failures:
  assumes "trim (inputText st) \<noteq> []"
  shows "handleGenerate (generateJapaneseSpeech (Inr url)) (analyzeJapaneseText (Inl e)) now uuid st
           = st\<lparr>isLoading := False, error := None, audioUrl := Some url,
                history := snd (createOrUpdate (history st) (inputText st) [] now uuid),
                activeItem := Some (fst (createOrUpdate (history st) (inputText st) [] now uuid))\<rparr>
       \<and> handleGenerate (generateJapaneseSpeech (Inr url)) (rejected r) now uuid st
           = handleGenerate (generateJapaneseSpeech (Inr url)) (fulfilled []) now uuid st
       \<and> error (handleGenerate (generateJapaneseSpeech (Inl e)) tokensResult now uuid st) \<noteq> None
       \<and> error (handleGenerate (generateJapaneseSpeech (Inl e)) tokensResult now uuid st) \<noteq> Some []
       \<and> history (handleGenerate (generateJapaneseSpeech (Inl e)) tokensResult now uuid st)
           = history st
       \<and> activeItem (handleGenerate (generateJapaneseSpeech (Inl e)) tokensResult now uuid st)
           = activeItem st
       \<and> audioUrl (handleGenerate (generateJapaneseSpeech (Inl e)) tokensResult now uuid st) = None
       \<and> \<not> isLoading (handleGenerate (generateJapaneseSpeech (Inl e)) tokensResult now uuid st)"
  using assms
  by (simp add: handleGenerate_def generateJapaneseSpeech_def analyzeJapaneseText_def Let_def
      split: prod.splits option.splits)

lemma trim_example: "trim (inputText exampleApp) \<noteq> []"
  by (simp add: trim_def exampleApp_def isWhiteSpace_def)

theorem handleGenerate_failures_witness:
  "trim (inputText exampleApp) \<noteq> []
   \<and> error (handleGenerate (generateJapaneseSpeech (Inr [0x75])) (analyzeJapaneseText (Inl None))
              5000 [0x63] exampleApp) = None
   \<and> map h_id (history (handleGenerate (generateJapaneseSpeech (Inr [0x75]))
                          (analyzeJapaneseText (Inl None)) 5000 [0x63] exampleApp))
       = [[0x61], [0x64]]
   \<and> error (handleGenerate (generateJapaneseSpeech (Inl (Some ''quota''))) (fulfilled exampleTokens)
              5000 [0x63] exampleApp) = Some ''quota''
   \<and> error (handleGenerate (generateJapaneseSpeech (Inl None)) (fulfilled exampleTokens)
              5000 [0x63] exampleApp) = Some ''Failed to generate speech''
   \<and> history (handleGenerate (generateJapaneseSpeech (Inl None)) (fulfilled exampleTokens)
              5000 [0x63] exampleApp) = history exampleApp"
  using trim_example
        handleGenerate_failures [of exampleApp "[0x75]" None 5000 "[0x63]" None "fulfilled exampleTokens"]
  by (simp add: handleGenerate_def generateJapaneseSpeech_def analyzeJapaneseText_def Let_def
      exampleApp_def exampleItem_def otherItem_def createOrUpdate_def)

section \<open>The audio container\<close>

lemma length_le32: "length (le32 v) = 4"
  by (simp add: le32_def Let_def)

lemma length_le16: "length (le16 v) = 2"
  by (simp add: le16_def Let_def)

lemma length_wavHeader: "length (wavHeader n r) = 44"
  by (simp add: wavHeader_def length_le32 length_le16)

lemma replicate_44: "replicate (44 + n) (0::byte) = zeros44 @ replicate n 0"
  by (simp add: replicate_add zeros44_def eval_nat_numeral)

lemma setUint8_append:
  "off < length h \<Longrightarrow>
     setUint8 (h @ xs) off v = map_option (\<lambda>h'. h' @ xs) (setUint8 h off v)"
  by (simp add: setUint8_def list_update_append)

lemma setUint16_append:
  "off + 2 \<le> length h \<Longrightarrow>
     setUint16 (h @ xs) off v e = map_option (\<lambda>h'. h' @ xs) (setUint16 h off v e)"
  by (simp add: setUint16_def list_update_append Let_def)

lemma setUint32_append:
  "off + 4 \<le> length h \<Longrightarrow>
     setUint32 (h @ xs) off v e = map_option (\<lambda>h'. h' @ xs) (setUint32 h off v e)"
  by (simp add: setUint32_def list_update_append Let_def)

lemma typedArraySet_exact:
  "typedArraySet (h @ replicate (length src) 0) (length h) src = Some (h @ src)"
  by (simp add: typedArraySet_def)

text \<open>The encoder never fails, and its result is the 44 header bytes and then the input.\<close>

lemma pcmToWav_explicit: "pcmToWav pcm r = Some (wavHeader (length pcm) r @ pcm)"
proof -
  have len: "length (wavHeader (length pcm) r) = 44" by (rule length_wavHeader)
  have "pcmToWav pcm r =
          typedArraySet (wavHeader (length pcm) r @ replicate (length pcm) 0) 44 pcm"
    unfolding pcmToWav_def Let_def replicate_44
    by (simp add: zeros44_def str_RIFF_def str_WAVE_def str_fmt_def str_data_def
        setUint8_append setUint16_append setUint32_append
        setUint8_def setUint16_def setUint32_def wavHeader_def le32_def le16_def Let_def)
  then show ?thesis
    using typedArraySet_exact [of "wavHeader (length pcm) r" pcm] len by simp
qed

lemma nat_bytes16:
  assumes "(n::nat) < 65536"
  shows "n mod 256 + 256 * (n div 256 mod 256) = n"
proof -
  from assms have "n div 256 < 256" by simp
  then have "n div 256 mod 256 = n div 256" by simp
  then show ?thesis by simp
qed

lemma nat_bytes32:
  assumes "(n::nat) < 4294967296"
  shows "n mod 256 + 256 * (n div 256 mod 256) + 65536 * (n div 65536 mod 256)
           + 16777216 * (n div 16777216 mod 256) = n"
proof -
  define a where "a = n div 256"
  define b where "b = a div 256"
  define c where "c = b div 256"
  have b: "n div 65536 = b" by (simp add: a_def b_def div_mult2_eq)
  have c: "n div 16777216 = c" by (simp add: a_def b_def c_def div_mult2_eq)
  have "c < 256" using assms unfolding c [symmetric] by simp
  then have cm: "c mod 256 = c" by simp
  have n: "n = n mod 256 + 256 * a" by (simp add: a_def)
  have a: "a = a mod 256 + 256 * b" by (simp add: b_def)
  have b': "b = b mod 256 + 256 * c" by (simp add: c_def)
  have "n mod 256 + 256 * (a mod 256) + 65536 * (b mod 256) + 16777216 * c = n"
    using n a b' by linarith
  then show ?thesis by (simp add: a_def [symmetric] b c cm)
qed

lemma unat_byte_of:
  fixes w :: "'a::len word"
  shows "unat (ucast (drop_bit k w) :: byte) = unat w div 2 ^ k mod 256"
  by (simp only: unsigned_ucast_eq unat_drop_bit_eq)
     (simp add: take_bit_eq_mod drop_bit_eq_div)

lemma unat_le32_bytes:
  fixes w :: "32 word"
  shows "unat (ucast w :: byte) + 256 * unat (ucast (drop_bit 8 w) :: byte)
         + 65536 * unat (ucast (drop_bit 16 w) :: byte)
         + 16777216 * unat (ucast (drop_bit 24 w) :: byte) = unat w"
proof -
  have bound: "unat w < 4294967296" using unsigned_less [of w] by simp
  have e0: "unat (ucast w :: byte) = unat w mod 256"
    using unat_byte_of [of 0 w] by simp
  have e1: "unat (ucast (drop_bit 8 w) :: byte) = unat w div 256 mod 256"
    using unat_byte_of [of 8 w] by simp
  have e2: "unat (ucast (drop_bit 16 w) :: byte) = unat w div 65536 mod 256"
    using unat_byte_of [of 16 w] by simp
  have e3: "unat (ucast (drop_bit 24 w) :: byte) = unat w div 16777216 mod 256"
    using unat_byte_of [of 24 w] by simp
  show ?thesis
    using nat_bytes32 [OF bound] by (simp only: e0 e1 e2 e3)
qed

lemma unat_le16_bytes:
  fixes w :: "16 word"
  shows "unat (ucast w :: byte) + 256 * unat (ucast (drop_bit 8 w) :: byte) = unat w"
proof -
  have bound: "unat w < 65536" using unsigned_less [of w] by simp
  have e0: "unat (ucast w :: byte) = unat w mod 256"
    using unat_byte_of [of 0 w] by simp
  have e1: "unat (ucast (drop_bit 8 w) :: byte) = unat w div 256 mod 256"
    using unat_byte_of [of 8 w] by simp
  show ?thesis
    using nat_bytes16 [OF bound] by (simp only: e0 e1)
qed

text \<open>A 32-bit field read back holds the value written modulo \<open>2 ^ 32\<close>.\<close>

lemma getUint32_le32:
  "length pre = off \<Longrightarrow>
     getUint32 (pre @ le32 v @ post) off True = Some (nat (v mod 4294967296))"
  apply (simp add: getUint32_def le32_def Let_def nth_append unat_le32_bytes)
  apply (simp add: unat_eq_nat_uint uint_word_of_int)
  done

lemma getUint16_le16:
  "length pre = off \<Longrightarrow>
     getUint16 (pre @ le16 v @ post) off True = Some (nat (v mod 65536))"
  apply (simp add: getUint16_def le16_def Let_def nth_append unat_le16_bytes)
  apply (simp add: unat_eq_nat_uint uint_word_of_int)
  done

lemma getUint32_at:
  assumes "take 4 (drop off buf) = le32 v"
  shows "getUint32 buf off True = Some (nat (v mod 4294967296))"
proof -
  have "length (take 4 (drop off buf)) = 4" using assms by (simp add: length_le32)
  then have len: "off + 4 \<le> length buf" by simp
  have "buf = take off buf @ take 4 (drop off buf) @ drop 4 (drop off buf)"
    by (simp only: append_take_drop_id)
  then have buf: "buf = take off buf @ le32 v @ drop 4 (drop off buf)" using assms by simp
  have "length (take off buf) = off" using len by simp
  from getUint32_le32 [OF this, of v "drop 4 (drop off buf)"] buf show ?thesis by simp
qed

lemma getUint16_at:
  assumes "take 2 (drop off buf) = le16 v"
  shows "getUint16 buf off True = Some (nat (v mod 65536))"
proof -
  have "length (take 2 (drop off buf)) = 2" using assms by (simp add: length_le16)
  then have len: "off + 2 \<le> length buf" by simp
  have "buf = take off buf @ take 2 (drop off buf) @ drop 2 (drop off buf)"
    by (simp only: append_take_drop_id)
  then have buf: "buf = take off buf @ le16 v @ drop 2 (drop off buf)" using assms by simp
  have "length (take off buf) = off" using len by simp
  from getUint16_le16 [OF this, of v "drop 2 (drop off buf)"] buf show ?thesis by simp
qed

lemma wav_fields32:
  "take 4 (drop 4 (wavHeader n r @ pcm)) = le32 (36 + int n)"
  "take 4 (drop 16 (wavHeader n r @ pcm)) = le32 16"
  "take 4 (drop 24 (wavHeader n r @ pcm)) = le32 r"
  "take 4 (drop 28 (wavHeader n r @ pcm)) = le32 (2 * r)"
  "take 4 (drop 40 (wavHeader n r @ pcm)) = le32 (int n)"
  by (simp_all add: wavHeader_def length_le32 length_le16)

lemma wav_fields16:
  "take 2 (drop 20 (wavHeader n r @ pcm)) = le16 1"
  "take 2 (drop 22 (wavHeader n r @ pcm)) = le16 1"
  "take 2 (drop 32 (wavHeader n r @ pcm)) = le16 2"
  "take 2 (drop 34 (wavHeader n r @ pcm)) = le16 16"
  by (simp_all add: wavHeader_def length_le32 length_le16)

lemma wav_tags:
  "getString (wavHeader n r @ pcm) 0 4 = Some str_RIFF"
  "getString (wavHeader n r @ pcm) 8 4 = Some str_WAVE"
  "getString (wavHeader n r @ pcm) 12 4 = Some str_fmt"
  "getString (wavHeader n r @ pcm) 36 4 = Some str_data"
  by (simp_all add: getString_def length_wavHeader)
     (simp_all add: wavHeader_def length_le32 length_le16 str_RIFF_def str_WAVE_def
        str_fmt_def str_data_def)

lemma wav_payload: "drop 44 (wavHeader n r @ pcm) = pcm"
  by (simp add: length_wavHeader)

text \<open>
  C2, as the code has it. For a PCM input of \<open>L\<close> bytes with \<open>36 + L < 2 ^ 32\<close> and an
  integer sample rate \<open>R\<close> with \<open>0 \<le> R < 2 ^ 31\<close> (so that every value fits its 32-bit
  field), the encoder returns a buffer of \<open>44 + L\<close> bytes whose little-endian header
  holds the tags RIFF, WAVE, fmt and data, total size \<open>36 + L\<close> at offset 4, format
  chunk size 16, format tag 1, one channel, sample rate \<open>R\<close>, byte rate
  \<open>R * 1 * 16 / 8\<close>, block align \<open>1 * 16 / 8\<close>, 16 bits per sample and data size \<open>L\<close>
  at offset 40, followed from offset 44 by the input; this includes the empty input.
\<close>

theorem pcmToWav_header:
  assumes "36 + length pcmData < 4294967296"
      and "0 \<le> sampleRate" and "sampleRate < 2147483648"
  shows "\<exists>buffer. pcmToWav pcmData sampleRate = Some buffer
           \<and> length buffer = 44 + length pcmData
           \<and> getString buffer 0 4 = Some str_RIFF
           \<and> getUint32 buffer 4 True = Some (36 + length pcmData)
           \<and> getString buffer 8 4 = Some str_WAVE
           \<and> getString buffer 12 4 = Some str_fmt
           \<and> getUint32 buffer 16 True = Some 16
           \<and> getUint16 buffer 20 True = Some 1
           \<and> getUint16 buffer 22 True = Some 1
           \<and> getUint32 buffer 24 True = Some (nat sampleRate)
           \<and> getUint32 buffer 28 True = Some (nat (sampleRate * 1 * 16 div 8))
           \<and> getUint16 buffer 32 True = Some (1 * 16 div 8)
           \<and> getUint16 buffer 34 True = Some 16
           \<and> getString buffer 36 4 = Some str_data
           \<and> getUint32 buffer 40 True = Some (length pcmData)
           \<and> drop 44 buffer = pcmData"
proof -
  let ?b = "wavHeader (length pcmData) sampleRate @ pcmData"
  have total: "getUint32 ?b 4 True = Some (36 + length pcmData)"
    using getUint32_at [OF wav_fields32(1)] assms(1) by (simp add: nat_add_distrib)
  have fmt: "getUint32 ?b 16 True = Some 16"
    using getUint32_at [OF wav_fields32(2)] by simp
  have rate: "getUint32 ?b 24 True = Some (nat sampleRate)"
    using getUint32_at [OF wav_fields32(3)] assms(2,3) by simp
  have byteRate: "getUint32 ?b 28 True = Some (nat (sampleRate * 1 * 16 div 8))"
    using getUint32_at [OF wav_fields32(4)] assms(2,3) by simp
  have dataSize: "getUint32 ?b 40 True = Some (length pcmData)"
    using getUint32_at [OF wav_fields32(5)] assms(1) by simp
  have tag: "getUint16 ?b 20 True = Some 1"
    using getUint16_at [OF wav_fields16(1)] by simp
  have channels: "getUint16 ?b 22 True = Some 1"
    using getUint16_at [OF wav_fields16(2)] by simp
  have align: "getUint16 ?b 32 True = Some (1 * 16 div 8)"
    using getUint16_at [OF wav_fields16(3)] by simp
  have bits: "getUint16 ?b 34 True = Some 16"
    using getUint16_at [OF wav_fields16(4)] by simp
  have len: "length ?b = 44 + length pcmData" by (simp add: length_wavHeader)
  show ?thesis
    unfolding pcmToWav_explicit
    using total fmt rate byteRate dataSize tag channels align bits len wav_tags wav_payload
    by (intro exI [of _ ?b]) (simp only: simp_thms)
qed

text \<open>A two-byte input at 24000 Hz, and the empty input.\<close>

theorem pcmToWav_header_witness:
  "36 + length [0x34, 0x12 :: byte] < (4294967296 :: nat)
   \<and> (0::int) \<le> 24000 \<and> (24000::int) < 2147483648
   \<and> pcmToWav [0x34, 0x12] 24000
       = Some [0x52, 0x49, 0x46, 0x46, 38, 0, 0, 0, 0x57, 0x41, 0x56, 0x45,
               0x66, 0x6D, 0x74, 0x20, 16, 0, 0, 0, 1, 0, 1, 0,
               0xC0, 0x5D, 0, 0, 0x80, 0xBB, 0, 0, 2, 0, 16, 0,
               0x64, 0x61, 0x74, 0x61, 2, 0, 0, 0, 0x34, 0x12]
   \<and> getUint32 (the (pcmToWav [0x34, 0x12] 24000)) 24 True = Some 24000
   \<and> getUint32 (the (pcmToWav [] 24000)) 40 True = Some 0
   \<and> length (the (pcmToWav [] 24000)) = 44"
  using pcmToWav_header [of "[0x34, 0x12]" 24000] pcmToWav_header [of "[]" 24000]
  by (simp add: pcmToWav_explicit wavHeader_def le32_def le16_def)

text \<open>
  The claim as stated fails where a value does not fit its 32-bit field. For a sample
  rate of \<open>2 ^ 31\<close> the byte rate \<open>R * 1 * 16 / 8 = 2 ^ 32\<close> is stored as 0, and for
  an input of \<open>2 ^ 32 - 36\<close> bytes the total size \<open>36 + L = 2 ^ 32\<close> is stored as 0.
\<close>

lemma pcmToWav_totalSize_wraps:
  "getUint32 (the (pcmToWav (replicate 4294967260 0) 24000)) 4 True = Some 0"
proof -
  have "getUint32 (wavHeader 4294967260 24000 @ replicate 4294967260 0) 4 True
          = Some (nat ((36 + int 4294967260) mod 4294967296))"
    by (rule getUint32_at) (rule wav_fields32(1))
  then show ?thesis by (simp add: pcmToWav_explicit)
qed

theorem pcmToWav_wrap_counterexample:
  "pcmToWav [] 2147483648 \<noteq> None
   \<and> getUint32 (the (pcmToWav [] 2147483648)) 28 True = Some 0
   \<and> getUint32 (the (pcmToWav [] 2147483648)) 28 True
       \<noteq> Some (nat (2147483648 * 1 * 16 div 8))
   \<and> length (replicate 4294967260 (0::byte)) = 4294967260
   \<and> getUint32 (the (pcmToWav (replicate 4294967260 0) 24000)) 4 True
       \<noteq> Some (36 + length (replicate 4294967260 (0::byte)))"
proof -
  have "pcmToWav [] 2147483648 \<noteq> None
        \<and> getUint32 (the (pcmToWav [] 2147483648)) 28 True = Some 0
        \<and> getUint32 (the (pcmToWav [] 2147483648)) 28 True
            \<noteq> Some (nat (2147483648 * 1 * 16 div 8))"
    by (simp add: pcmToWav_explicit wavHeader_def le32_def le16_def getUint32_def)
  then show ?thesis
    using pcmToWav_totalSize_wraps by (simp only: length_replicate) simp
qed

end
